theory Spec2Isabelle
  imports Main "HOL-Library.Word"
begin

section \<open>The mruby scripting backend of mpv (player/mruby.c)\<close>

text \<open>
  The file bridges the player and one embedded mruby interpreter per loaded script.
  The model follows the C source function by function. What lies outside the file
  (the mruby library, libmpv, the message sink, the file system) is a parameter or a
  small model of the call's documented effect, and is marked as such.
\<close>

subsection \<open>Strings and printf\<close>

text \<open>
  A \<open>char *\<close> of the player is modelled by the text of the C string. An mruby String is
  a byte sequence with an explicit length and may hold NUL bytes; read through a
  \<open>char *\<close> (\<open>RSTRING_PTR\<close>, the pointer stored by \<open>mrb_get_args\<close>) it ends at the
  first NUL, which is what \<open>c_str\<close> computes.
\<close>

definition c_str :: "string \<Rightarrow> string" where
  "c_str bytes = takeWhile (\<lambda>c. c \<noteq> CHR 0x00) bytes"

text \<open>The conversion \<open>%d\<close> of printf.\<close>

fun dec_nat :: "nat \<Rightarrow> string" where
  "dec_nat n = (if n < 10 then [char_of (48 + n)] else dec_nat (n div 10) @ [char_of (48 + n mod 10)])"

declare dec_nat.simps [simp del]

definition dec_int :: "int \<Rightarrow> string" where
  "dec_int i = (if i < 0 then CHR ''-'' # dec_nat (nat (- i)) else dec_nat (nat i))"

subsection \<open>Tagged host values (struct mpv_node of libmpv/client.h)\<close>

text \<open>A double is carried as its IEEE-754 binary64 bit pattern: the bridge only passes it on.\<close>

datatype double = Double "64 word"

text \<open>
  The union \<open>u\<close> together with its tag \<open>format\<close>. \<open>NodeOther f\<close> is a node whose format
  the switch of \<open>mpv_to_mrb_root\<close> does not list; \<open>f\<close> is the value of the tag.
  An array or map node holds \<open>list->num\<close> values (and as many keys for a map).
\<close>

datatype mpv_node =
    NodeString string
  | NodeFlag "32 word"
  | NodeInt64 "64 word"
  | NodeDouble double
  | NodeArray "mpv_node list"
  | NodeMap "(string \<times> mpv_node) list"
  | NodeOther int

text \<open>The values of \<open>enum mpv_format\<close> in libmpv/client.h.\<close>

definition MPV_FORMAT_STRING :: int where "MPV_FORMAT_STRING = 1"
definition MPV_FORMAT_FLAG :: int where "MPV_FORMAT_FLAG = 3"
definition MPV_FORMAT_INT64 :: int where "MPV_FORMAT_INT64 = 4"
definition MPV_FORMAT_DOUBLE :: int where "MPV_FORMAT_DOUBLE = 5"
definition MPV_FORMAT_NODE_ARRAY :: int where "MPV_FORMAT_NODE_ARRAY = 7"
definition MPV_FORMAT_NODE_MAP :: int where "MPV_FORMAT_NODE_MAP = 8"

fun format :: "mpv_node \<Rightarrow> int" where
  "format (NodeString s) = MPV_FORMAT_STRING"
| "format (NodeFlag f) = MPV_FORMAT_FLAG"
| "format (NodeInt64 i) = MPV_FORMAT_INT64"
| "format (NodeDouble d) = MPV_FORMAT_DOUBLE"
| "format (NodeArray vs) = MPV_FORMAT_NODE_ARRAY"
| "format (NodeMap kvs) = MPV_FORMAT_NODE_MAP"
| "format (NodeOther f) = f"

definition recognized :: "int set" where
  "recognized = {MPV_FORMAT_STRING, MPV_FORMAT_FLAG, MPV_FORMAT_INT64, MPV_FORMAT_DOUBLE,
                 MPV_FORMAT_NODE_ARRAY, MPV_FORMAT_NODE_MAP}"

subsection \<open>The script context and the values of the interpreter\<close>

text \<open>Pointers are addresses; \<open>None\<close> is NULL.\<close>

type_synonym ptr = "nat option"

record script_ctx =
  state :: ptr
  name :: string
  filename :: string
  log :: nat
  client :: nat
  mpctx :: nat

text \<open>
  \<open>mrb_value\<close>. A C pointer value (\<open>mrb_cptr_value\<close>) is only ever made from the script
  context, which does not change while the interpreter runs, so it carries the context
  it points to. An Array or Hash is the sequence of its entries in insertion order.
\<close>

datatype mrb_value =
    MrbNil
  | MrbBool bool
  | MrbFixnum int
  | MrbFloat double
  | MrbString string
  | MrbArray "mrb_value list"
  | MrbHash "(mrb_value \<times> mrb_value) list"
  | MrbCptr script_ctx

text \<open>An exception object, as far as the file reads it: its \<open>inspect\<close> String and its backtrace,
  an Array of Strings.\<close>

datatype exception = Exception (mrb_inspect: string) (mrb_exc_backtrace: "string list")

text \<open>The kinds of heap object the bridge creates (\<open>enum mrb_vtype\<close>).\<close>

datatype mrb_vtype = MRB_TT_STRING | MRB_TT_ARRAY | MRB_TT_HASH | MRB_TT_FLOAT

text \<open>The three functions \<open>define_module\<close> registers.\<close>

datatype cfunc = Fn_log | Fn_property_list | Fn_get_property

text \<open>
  \<open>struct mrb_state\<close>, the part the file touches: the pending exception \<open>exc\<close>, the GC
  arena (\<open>arena[0..arena_idx)\<close>, the objects protected from collection, by kind), the
  constants of the VM and the module functions, keyed by module and function name.
\<close>

record mrb_state =
  exc :: "exception option"
  arena :: "mrb_vtype list"
  vm_consts :: "(string \<times> mrb_value) list"
  module_functions :: "((string \<times> string) \<times> cfunc) list"

text \<open>Severity levels of common/msg.h; the file only uses \<open>MSGL_ERR\<close>.\<close>

datatype msglevel = MSGL_FATAL | MSGL_ERR | MSGL_WARN | MSGL_INFO

text \<open>Allocation and release of the two resources \<open>load_mruby\<close> owns.\<close>

datatype resource_event = Ctx_alloc | Mrb_open | Mrb_close | Ctx_free

text \<open>
  Everything a call can change: the interpreter, the messages the player's log has
  received (log handle, severity, text: one entry per \<open>mp_msg\<close> call), and the order in
  which resources were taken and released.
\<close>

record world =
  mrb :: mrb_state
  sink :: "(nat \<times> msglevel \<times> string) list"
  resources :: "resource_event list"

text \<open>
  How a call ends: with undefined behaviour or an abort (\<open>Undefined\<close>), with an mruby
  exception that unwinds to the caller (\<open>Raise\<close>, a longjmp in C), or normally.
\<close>

datatype 'a outcome = Undefined | Raise exception world | Return 'a world

definition seq :: "'a outcome \<Rightarrow> ('a \<Rightarrow> world \<Rightarrow> 'b outcome) \<Rightarrow> 'b outcome" where
  "seq r f = (case r of Undefined \<Rightarrow> Undefined | Raise e w \<Rightarrow> Raise e w | Return a w \<Rightarrow> f a w)"

text \<open>The returned value and the final world of a call that returned.\<close>

definition returned :: "'a outcome \<Rightarrow> 'a option" where
  "returned r = (case r of Return a w \<Rightarrow> Some a | _ \<Rightarrow> None)"

definition final :: "'a outcome \<Rightarrow> world option" where
  "final r = (case r of Return a w \<Rightarrow> Some w | _ \<Rightarrow> None)"

subsection \<open>The interpreter library, as the file uses it\<close>

text \<open>
  The build of mruby: the number of bits of the integers a Fixnum holds (\<open>mrb_int\<close> less
  the tag bits of the boxing in use), whether a Float is a heap object
  (\<open>MRB_WORD_BOXING\<close>), what \<open>mrb_open\<close> returns, and the exceptions the library raises
  by itself.
\<close>

record mruby =
  fixnum_bit :: nat
  float_is_object :: bool
  mrb_open :: ptr
  argument_error :: exception
  type_error :: exception
  name_error :: exception
  no_method_error :: exception

text \<open>Every new heap object is registered in the arena (\<open>mrb_gc_protect\<close>); the arena grows on demand.\<close>

definition gc_protect :: "mrb_vtype \<Rightarrow> world \<Rightarrow> world" where
  "gc_protect t w = w\<lparr>mrb := (mrb w)\<lparr>arena := arena (mrb w) @ [t]\<rparr>\<rparr>"

definition mrb_gc_arena_save :: "world \<Rightarrow> nat" where
  "mrb_gc_arena_save w = length (arena (mrb w))"

definition mrb_gc_arena_restore :: "nat \<Rightarrow> world \<Rightarrow> world" where
  "mrb_gc_arena_restore ai w = w\<lparr>mrb := (mrb w)\<lparr>arena := take ai (arena (mrb w))\<rparr>\<rparr>"

definition mrb_str_new_cstr :: "string \<Rightarrow> world \<Rightarrow> mrb_value \<times> world" where
  "mrb_str_new_cstr s w = (MrbString s, gc_protect MRB_TT_STRING w)"

definition mrb_bool_value :: "bool \<Rightarrow> mrb_value" where
  "mrb_bool_value b = MrbBool b"

text \<open>The argument is converted to \<open>mrb_int\<close> and boxed: the low \<open>fixnum_bit\<close> bits, signed.\<close>

definition mrb_fixnum_value :: "mruby \<Rightarrow> 64 word \<Rightarrow> mrb_value" where
  "mrb_fixnum_value m i = MrbFixnum (signed_take_bit (fixnum_bit m - 1) (sint i))"

definition mrb_float_value :: "mruby \<Rightarrow> double \<Rightarrow> world \<Rightarrow> mrb_value \<times> world" where
  "mrb_float_value m d w = (MrbFloat d, if float_is_object m then gc_protect MRB_TT_FLOAT w else w)"

definition mrb_ary_new :: "world \<Rightarrow> mrb_value list \<times> world" where
  "mrb_ary_new w = ([], gc_protect MRB_TT_ARRAY w)"

definition mrb_ary_push :: "mrb_value list \<Rightarrow> mrb_value \<Rightarrow> mrb_value list" where
  "mrb_ary_push ary item = ary @ [item]"

definition mrb_hash_new :: "world \<Rightarrow> (mrb_value \<times> mrb_value) list \<times> world" where
  "mrb_hash_new w = ([], gc_protect MRB_TT_HASH w)"

text \<open>A key that is already there keeps its place and gets the new value.\<close>

fun mrb_hash_set :: "(mrb_value \<times> mrb_value) list \<Rightarrow> mrb_value \<Rightarrow> mrb_value \<Rightarrow> (mrb_value \<times> mrb_value) list" where
  "mrb_hash_set [] k v = [(k, v)]"
| "mrb_hash_set ((k', v') # h) k v = (if k' = k then (k, v) # h else (k', v') # mrb_hash_set h k v)"

definition mrb_nil_value :: mrb_value where
  "mrb_nil_value = MrbNil"

text \<open>Symbols are their names. A constant that is not set raises NameError.\<close>

definition mrb_intern_cstr :: "string \<Rightarrow> string" where
  "mrb_intern_cstr s = s"

definition mrb_vm_const_get :: "mruby \<Rightarrow> string \<Rightarrow> world \<Rightarrow> mrb_value outcome" where
  "mrb_vm_const_get m symb w =
     (case map_of (vm_consts (mrb w)) symb of
        None \<Rightarrow> Raise (name_error m) w
      | Some v \<Rightarrow> Return v w)"

definition mrb_vm_const_set :: "string \<Rightarrow> mrb_value \<Rightarrow> world \<Rightarrow> world" where
  "mrb_vm_const_set symb v w = w\<lparr>mrb := (mrb w)\<lparr>vm_consts := (symb, v) # vm_consts (mrb w)\<rparr>\<rparr>"

text \<open>\<open>mrb_cptr\<close> reads the pointer member of the value: undefined for any other kind of value.\<close>

definition mrb_cptr :: "mrb_value \<Rightarrow> world \<Rightarrow> script_ctx outcome" where
  "mrb_cptr v w = (case v of MrbCptr c \<Rightarrow> Return c w | _ \<Rightarrow> Undefined)"

text \<open>
  \<open>mrb_get_args(mrb, "s", &string, &len)\<close>: exactly one argument, a String; yields the
  pointer to its bytes (a C string for its reader) and its length.
\<close>

definition mrb_get_args_s :: "mruby \<Rightarrow> mrb_value list \<Rightarrow> world \<Rightarrow> (string \<times> nat) outcome" where
  "mrb_get_args_s m args w =
     (case args of
        [MrbString bytes] \<Rightarrow> Return (c_str bytes, length bytes) w
      | [_] \<Rightarrow> Raise (type_error m) w
      | _ \<Rightarrow> Raise (argument_error m) w)"

text \<open>\<open>MP_ERR(ctx, ...)\<close> is \<open>mp_msg(ctx->log, MSGL_ERR, ...)\<close>; the text is already formatted.\<close>

definition MP_ERR :: "script_ctx \<Rightarrow> string \<Rightarrow> world \<Rightarrow> world" where
  "MP_ERR ctx text w = w\<lparr>sink := sink w @ [(log ctx, MSGL_ERR, text)]\<rparr>"

subsection \<open>get_ctx\<close>

definition get_ctx :: "mruby \<Rightarrow> world \<Rightarrow> script_ctx outcome" where
  "get_ctx m w =
     (let symb = mrb_intern_cstr ''mpctx''
      in seq (mrb_vm_const_get m symb w) (\<lambda>mrbctx w. mrb_cptr mrbctx w))"

subsection \<open>mpv_to_mrb_root\<close>

text \<open>
  The two \<open>for\<close> loops are \<open>array_loop\<close> and \<open>map_loop\<close>, over the values that remain;
  an exception raised by a nested call leaves the loop and the function.
\<close>

fun mpv_to_mrb_root :: "mruby \<Rightarrow> mpv_node \<Rightarrow> bool \<Rightarrow> world \<Rightarrow> mrb_value outcome"
and array_loop :: "mruby \<Rightarrow> mpv_node list \<Rightarrow> mrb_value list \<Rightarrow> world \<Rightarrow> (mrb_value list) outcome"
and map_loop :: "mruby \<Rightarrow> (string \<times> mpv_node) list \<Rightarrow> (mrb_value \<times> mrb_value) list \<Rightarrow> world
                 \<Rightarrow> ((mrb_value \<times> mrb_value) list) outcome"
where
  "mpv_to_mrb_root m (NodeString s) root w =
     (case mrb_str_new_cstr s w of (v, w') \<Rightarrow> Return v w')"
| "mpv_to_mrb_root m (NodeFlag flag) root w =
     Return (mrb_bool_value (0 \<le> sint flag)) w"
| "mpv_to_mrb_root m (NodeInt64 i) root w =
     Return (mrb_fixnum_value m i) w"
| "mpv_to_mrb_root m (NodeDouble d) root w =
     (case mrb_float_value m d w of (v, w') \<Rightarrow> Return v w')"
| "mpv_to_mrb_root m (NodeArray vs) root w =
     (case mrb_ary_new w of (ary, w1) \<Rightarrow>
        let ai = mrb_gc_arena_save w1 in
        (case array_loop m vs ary w1 of
           Undefined \<Rightarrow> Undefined
         | Raise e w2 \<Rightarrow> Raise e w2
         | Return ary' w2 \<Rightarrow>
             Return (MrbArray ary') (if root then mrb_gc_arena_restore ai w2 else w2)))"
| "mpv_to_mrb_root m (NodeMap kvs) root w =
     (case mrb_hash_new w of (hash, w1) \<Rightarrow>
        let ai = mrb_gc_arena_save w1 in
        (case map_loop m kvs hash w1 of
           Undefined \<Rightarrow> Undefined
         | Raise e w2 \<Rightarrow> Raise e w2
         | Return hash' w2 \<Rightarrow>
             Return (MrbHash hash') (if root then mrb_gc_arena_restore ai w2 else w2)))"
| "mpv_to_mrb_root m (NodeOther f) root w =
     (case get_ctx m w of
        Undefined \<Rightarrow> Undefined
      | Raise e w1 \<Rightarrow> Raise e w1
      | Return ctx w1 \<Rightarrow>
          Return mrb_nil_value
            (MP_ERR ctx (''mpv_node mapping failed (format: '' @ dec_int f @ '').'' @ [CHR 0x0A]) w1))"
| "array_loop m [] ary w = Return ary w"
| "array_loop m (v # vs) ary w =
     (case mpv_to_mrb_root m v False w of
        Undefined \<Rightarrow> Undefined
      | Raise e w1 \<Rightarrow> Raise e w1
      | Return item w1 \<Rightarrow> array_loop m vs (mrb_ary_push ary item) w1)"
| "map_loop m [] hash w = Return hash w"
| "map_loop m ((k, v) # kvs) hash w =
     (case mrb_str_new_cstr k w of (key, w1) \<Rightarrow>
        (case mpv_to_mrb_root m v False w1 of
           Undefined \<Rightarrow> Undefined
         | Raise e w2 \<Rightarrow> Raise e w2
         | Return val w2 \<Rightarrow> map_loop m kvs (mrb_hash_set hash key val) w2))"

definition mpv_to_mrb :: "mruby \<Rightarrow> mpv_node \<Rightarrow> world \<Rightarrow> mrb_value outcome" where
  "mpv_to_mrb m node w = mpv_to_mrb_root m node True w"

subsection \<open>Scripts and the player\<close>

text \<open>
  What a script does, as far as the bridge can tell: it ends, or it ends with an exception
  it does not rescue (a syntax error is one too), or it calls a module function with some
  arguments and goes on according to what the call returned or raised. A script is a
  finite tree of such steps; one that never ends is not modelled.
\<close>

datatype script =
    Finish
  | Throw exception
  | Call string string "mrb_value list" "exception + mrb_value \<Rightarrow> script"

text \<open>
  The player, as far as the file calls it: the client API, path resolution, the file
  system (the script a path holds, \<open>None\<close> when \<open>fopen\<close> returns NULL), the property
  system (the error code and the node stored in \<open>*value\<close>) and the property list.
\<close>

record host =
  mp_client_get_core :: "nat \<Rightarrow> nat"
  mpv_client_name :: "nat \<Rightarrow> string"
  mp_client_get_log :: "nat \<Rightarrow> nat"
  mp_get_user_path :: "nat \<Rightarrow> string \<Rightarrow> string"
  fopen :: "string \<Rightarrow> script option"
  mpv_get_property :: "nat \<Rightarrow> string \<Rightarrow> int \<times> mpv_node"
  mpv_error_string :: "int \<Rightarrow> string"
  mp_get_property_list :: "string list"

subsection \<open>The module functions: _log, _property_list, get_node, _get_property\<close>

definition M_log :: "mruby \<Rightarrow> mrb_value list \<Rightarrow> world \<Rightarrow> mrb_value outcome" where
  "M_log m args w =
     seq (get_ctx m w) (\<lambda>ctx w.
     seq (mrb_get_args_s m args w) (\<lambda>(string, len) w.
       Return mrb_nil_value (MP_ERR ctx string w)))"

fun property_list_loop :: "string list \<Rightarrow> mrb_value list \<Rightarrow> world \<Rightarrow> mrb_value list \<times> world" where
  "property_list_loop [] mrb_props w = (mrb_props, w)"
| "property_list_loop (p # props) mrb_props w =
     (case mrb_str_new_cstr p w of (nm, w1) \<Rightarrow>
        property_list_loop props (mrb_ary_push mrb_props nm) w1)"

definition M_property_list :: "host \<Rightarrow> world \<Rightarrow> mrb_value outcome" where
  "M_property_list h w =
     (let props = mp_get_property_list h in
      case mrb_ary_new w of (mrb_props, w1) \<Rightarrow>
        let ai = mrb_gc_arena_save w1 in
        case property_list_loop props mrb_props w1 of (mrb_props', w2) \<Rightarrow>
          Return (MrbArray mrb_props') (mrb_gc_arena_restore ai w2))"

text \<open>\<open>get_node\<close> returns whether the lookup succeeded, and the node it left in \<open>*value\<close>.\<close>

definition get_node :: "mruby \<Rightarrow> host \<Rightarrow> mrb_value list \<Rightarrow> world \<Rightarrow> (bool \<times> mpv_node) outcome" where
  "get_node m h args w =
     seq (get_ctx m w) (\<lambda>ctx w.
     seq (mrb_get_args_s m args w) (\<lambda>(nm, len) w.
       case mpv_get_property h (client ctx) nm of (err, val) \<Rightarrow>
         Return (0 \<le> err, val)
           (if err < 0
            then MP_ERR ctx (''get_property('' @ [CHR 0x22] @ nm @ [CHR 0x22] @ '') failed: ''
                             @ mpv_error_string h err @ ''.'' @ [CHR 0x0A]) w
            else w)))"

definition M_get_property :: "mruby \<Rightarrow> host \<Rightarrow> mrb_value list \<Rightarrow> world \<Rightarrow> mrb_value outcome" where
  "M_get_property m h args w =
     seq (get_node m h args w) (\<lambda>(ok, node) w.
       if ok then mpv_to_mrb m node w else Return mrb_nil_value w)"

subsection \<open>define_module\<close>

definition mrb_define_module_function :: "string \<Rightarrow> string \<Rightarrow> cfunc \<Rightarrow> world \<Rightarrow> world" where
  "mrb_define_module_function modl fn f w =
     w\<lparr>mrb := (mrb w)\<lparr>module_functions := ((modl, fn), f) # module_functions (mrb w)\<rparr>\<rparr>"

definition define_module :: "world \<Rightarrow> world" where
  "define_module w =
     (let modl = ''M'';
          w = mrb_define_module_function modl ''log'' Fn_log w;
          w = mrb_define_module_function modl ''property_list'' Fn_property_list w;
          w = mrb_define_module_function modl ''get_property'' Fn_get_property w
      in w)"

subsection \<open>Running a script\<close>

text \<open>
  A call of a module function runs the C function registered under that name; a name
  that is not registered raises NoMethodError. What the function returns or raises goes
  back to the script.
\<close>

definition call_cfunc :: "mruby \<Rightarrow> host \<Rightarrow> cfunc \<Rightarrow> mrb_value list \<Rightarrow> world \<Rightarrow> mrb_value outcome" where
  "call_cfunc m h f args w =
     (case f of
        Fn_log \<Rightarrow> M_log m args w
      | Fn_property_list \<Rightarrow> M_property_list h w
      | Fn_get_property \<Rightarrow> M_get_property m h args w)"

definition mrb_funcall :: "mruby \<Rightarrow> host \<Rightarrow> string \<Rightarrow> string \<Rightarrow> mrb_value list \<Rightarrow> world \<Rightarrow> mrb_value outcome" where
  "mrb_funcall m h modl fn args w =
     (case map_of (module_functions (mrb w)) (modl, fn) of
        None \<Rightarrow> Raise (no_method_error m) w
      | Some f \<Rightarrow> call_cfunc m h f args w)"

primrec run_script :: "mruby \<Rightarrow> host \<Rightarrow> script \<Rightarrow> world \<Rightarrow> mrb_value outcome" where
  "run_script m h Finish w = Return mrb_nil_value w"
| "run_script m h (Throw e) w = Raise e w"
| "run_script m h (Call modl fn args k) w =
     (case mrb_funcall m h modl fn args w of
        Undefined \<Rightarrow> Undefined
      | Raise e w1 \<Rightarrow> run_script m h (k (Inl e)) w1
      | Return v w1 \<Rightarrow> run_script m h (k (Inr v)) w1)"

text \<open>\<open>mrb_load_file_cxt\<close> runs the script; an exception that reaches it is left in \<open>mrb->exc\<close>.\<close>

definition mrb_load_file_cxt :: "mruby \<Rightarrow> host \<Rightarrow> script \<Rightarrow> world \<Rightarrow> mrb_value outcome" where
  "mrb_load_file_cxt m h prog w =
     (case run_script m h prog w of
        Undefined \<Rightarrow> Undefined
      | Raise e w1 \<Rightarrow> Return mrb_nil_value (w1\<lparr>mrb := (mrb w1)\<lparr>exc := Some e\<rparr>\<rparr>)
      | Return v w1 \<Rightarrow> Return v w1)"

text \<open>An exception raised while no script runs has nowhere to unwind to: mruby aborts.\<close>

definition unprotected :: "'a outcome \<Rightarrow> 'a outcome" where
  "unprotected r = (case r of Raise e w \<Rightarrow> Undefined | _ \<Rightarrow> r)"

subsection \<open>print_backtrace\<close>

text \<open>The \<open>for\<close> loop over the frames \<open>bt[i..]\<close>, appending to \<open>err\<close>.\<close>

fun backtrace_loop :: "string list \<Rightarrow> nat \<Rightarrow> string \<Rightarrow> string" where
  "backtrace_loop [] i err = err"
| "backtrace_loop (s # bt) i err =
     backtrace_loop bt (i + 1)
       (err @ [CHR 0x09] @ ''['' @ dec_int (int i) @ ''] => '' @ c_str s @ [CHR 0x0A])"

definition print_backtrace :: "mruby \<Rightarrow> world \<Rightarrow> unit outcome" where
  "print_backtrace m w =
     (case exc (mrb w) of
        None \<Rightarrow> Return () w
      | Some e \<Rightarrow>
          let bt = mrb_exc_backtrace e;
              w = gc_protect MRB_TT_ARRAY w;
              ai = mrb_gc_arena_save w;
              err = [];
              exc_str = mrb_inspect e;
              w = gc_protect MRB_TT_STRING w;
              err = err @ c_str exc_str @ [CHR 0x0A];
              err = err @ ''backtrace:'' @ [CHR 0x0A];
              err = backtrace_loop bt 0 err;
              w = mrb_gc_arena_restore ai w
          in seq (unprotected (get_ctx m w)) (\<lambda>ctx w. Return () (MP_ERR ctx err w)))"

subsection \<open>load_script and load_mruby\<close>

text \<open>
  There is no check of \<open>fp\<close>: when \<open>fopen\<close> fails, \<open>mrb_load_file_cxt\<close> and \<open>fclose\<close> are
  given the NULL stream, which is undefined.
\<close>

definition load_script :: "mruby \<Rightarrow> host \<Rightarrow> string \<Rightarrow> world \<Rightarrow> unit outcome" where
  "load_script m h fname w =
     seq (unprotected (get_ctx m w)) (\<lambda>ctx w.
       let file_path = mp_get_user_path h (mpctx ctx) fname;
           fp = fopen h file_path
       in case fp of
            None \<Rightarrow> Undefined
          | Some prog \<Rightarrow>
              seq (mrb_load_file_cxt m h prog w) (\<lambda>_ w. print_backtrace m w))"

text \<open>A call \<open>f(mrb, ...)\<close> of the mruby API reads \<open>*mrb\<close>: undefined for a NULL \<open>mrb\<close>.\<close>

definition deref :: "ptr \<Rightarrow> 'a outcome \<Rightarrow> 'a outcome" where
  "deref p r = (case p of None \<Rightarrow> Undefined | Some a \<Rightarrow> r)"

text \<open>The interpreter \<open>mrb_open\<close> returns: no exception, nothing protected, nothing defined by the file.\<close>

definition new_state :: mrb_state where
  "new_state = \<lparr>exc = None, arena = [], vm_consts = [], module_functions = []\<rparr>"

definition mrb_close :: "world \<Rightarrow> world" where
  "mrb_close w = w\<lparr>resources := resources w @ [Mrb_close]\<rparr>"

definition talloc_free_ctx :: "world \<Rightarrow> world" where
  "talloc_free_ctx w = w\<lparr>resources := resources w @ [Ctx_free]\<rparr>"

text \<open>The code from the label \<open>err_out\<close> on.\<close>

definition err_out :: "script_ctx \<Rightarrow> int \<Rightarrow> world \<Rightarrow> int outcome" where
  "err_out ctx r w =
     (let w = (if state ctx \<noteq> None then mrb_close w else w);
          w = talloc_free_ctx w
      in Return r w)"

definition load_mruby :: "mruby \<Rightarrow> host \<Rightarrow> nat \<Rightarrow> string \<Rightarrow> world \<Rightarrow> int outcome" where
  "load_mruby m h client' fname w =
     (let mpctx' = mp_client_get_core h client';
          r = - 1;
          w = w\<lparr>resources := resources w @ [Ctx_alloc]\<rparr>;
          ctx = \<lparr>state = None, name = mpv_client_name h client', filename = fname,
                 log = mp_client_get_log h client', client = client', mpctx = mpctx'\<rparr>;
          mrb' = mrb_open m;
          ctx = ctx\<lparr>state := mrb'\<rparr>;
          w = (if mrb' \<noteq> None then w\<lparr>mrb := new_state, resources := resources w @ [Mrb_open]\<rparr> else w)
      in seq (deref mrb' (Return (mrb_intern_cstr ''mpctx'') w)) (\<lambda>symb w.
         seq (deref mrb' (Return () (mrb_vm_const_set symb (MrbCptr ctx) w))) (\<lambda>_ w.
         seq (deref mrb' (Return () (define_module w))) (\<lambda>_ w.
           if mrb' = None then err_out ctx r w
           else seq (unprotected (load_script m h fname w)) (\<lambda>_ w. err_out ctx 0 w)))))"

subsection \<open>What the claims speak of\<close>

text \<open>A node without a node of unlisted format anywhere inside.\<close>

fun unsupported_free :: "mpv_node \<Rightarrow> bool" where
  "unsupported_free (NodeArray vs) = list_all unsupported_free vs"
| "unsupported_free (NodeMap kvs) = list_all (\<lambda>kv. unsupported_free (snd kv)) kvs"
| "unsupported_free (NodeOther f) = False"
| "unsupported_free _ = True"

text \<open>
  The value the specification asks of the conversion: a string to the native string, a
  flag to the boolean, an integer to the native integer of the same value, a double to
  the native float, an array to the converted elements in order, a map to the hash
  that results from inserting the converted pairs in the order of the source.
\<close>

fun mirror :: "mpv_node \<Rightarrow> mrb_value" where
  "mirror (NodeString s) = MrbString s"
| "mirror (NodeFlag flag) = MrbBool (0 \<le> sint flag)"
| "mirror (NodeInt64 i) = MrbFixnum (sint i)"
| "mirror (NodeDouble d) = MrbFloat d"
| "mirror (NodeArray vs) = MrbArray (map mirror vs)"
| "mirror (NodeMap kvs) =
     MrbHash (foldl (\<lambda>hash kv. mrb_hash_set hash (MrbString (fst kv)) (mirror (snd kv))) [] kvs)"
| "mirror (NodeOther f) = MrbNil"

text \<open>Every integer in the node lies in the range of a Fixnum of the build.\<close>

fun fits_fixnum :: "mruby \<Rightarrow> mpv_node \<Rightarrow> bool" where
  "fits_fixnum m (NodeInt64 i) =
     (- (2 ^ (fixnum_bit m - 1)) \<le> sint i \<and> sint i < 2 ^ (fixnum_bit m - 1))"
| "fits_fixnum m (NodeArray vs) = list_all (fits_fixnum m) vs"
| "fits_fixnum m (NodeMap kvs) = list_all (\<lambda>kv. fits_fixnum m (snd kv)) kvs"
| "fits_fixnum m _ = True"

text \<open>The objects a nested conversion of a node registers in the arena, in order.\<close>

fun registered :: "mruby \<Rightarrow> mpv_node \<Rightarrow> mrb_vtype list" where
  "registered m (NodeString s) = [MRB_TT_STRING]"
| "registered m (NodeFlag flag) = []"
| "registered m (NodeInt64 i) = []"
| "registered m (NodeDouble d) = (if float_is_object m then [MRB_TT_FLOAT] else [])"
| "registered m (NodeArray vs) = MRB_TT_ARRAY # concat (map (registered m) vs)"
| "registered m (NodeMap kvs) = MRB_TT_HASH # concat (map (\<lambda>kv. MRB_TT_STRING # registered m (snd kv)) kvs)"
| "registered m (NodeOther f) = []"

text \<open>
  The text a fault is reported with, as the specification words it: the description,
  the line \<open>backtrace:\<close>, then one line per frame.
\<close>

fun frame_lines :: "nat \<Rightarrow> string list \<Rightarrow> string" where
  "frame_lines i [] = []"
| "frame_lines i (s # bt) =
     [CHR 0x09] @ ''['' @ dec_int (int i) @ ''] => '' @ s @ [CHR 0x0A] @ frame_lines (i + 1) bt"

definition fault_message :: "string \<Rightarrow> string list \<Rightarrow> string" where
  "fault_message description frames =
     description @ [CHR 0x0A] @ ''backtrace:'' @ [CHR 0x0A] @ frame_lines 0 frames"

text \<open>
  Between \<open>define_module\<close> and \<open>mrb_close\<close> nothing changes the constants, the module
  functions or the resources; \<open>kept\<close> says so of a call that does not end undefined.
\<close>

definition same_setup :: "world \<Rightarrow> world \<Rightarrow> bool" where
  "same_setup w w' \<longleftrightarrow>
     vm_consts (mrb w') = vm_consts (mrb w) \<and>
     module_functions (mrb w') = module_functions (mrb w) \<and>
     resources w' = resources w"

definition kept :: "world \<Rightarrow> 'a outcome \<Rightarrow> bool" where
  "kept w r = (case r of Undefined \<Rightarrow> False | Raise e w' \<Rightarrow> same_setup w w' | Return a w' \<Rightarrow> same_setup w w')"

text \<open>The arena a call leaves, when it returns.\<close>

definition arena_after :: "'a outcome \<Rightarrow> mrb_vtype list option" where
  "arena_after r = map_option (\<lambda>w. arena (mrb w)) (final r)"

definition sink_after :: "'a outcome \<Rightarrow> (nat \<times> msglevel \<times> string) list option" where
  "sink_after r = map_option sink (final r)"

subsection \<open>Concrete inputs\<close>

definition ex_mruby :: mruby where
  "ex_mruby = \<lparr>fixnum_bit = 32, float_is_object = False, mrb_open = Some 1,
     argument_error = Exception ''wrong number of arguments (ArgumentError)'' [],
     type_error = Exception ''expected String (TypeError)'' [],
     name_error = Exception ''uninitialized constant mpctx (NameError)'' [],
     no_method_error = Exception ''undefined method (NoMethodError)'' []\<rparr>"

definition ex_ctx :: script_ctx where
  "ex_ctx = \<lparr>state = Some 1, name = ''test'', filename = ''test.mrb'', log = 3, client = 2, mpctx = 7\<rparr>"

text \<open>The world as \<open>load_mruby\<close> has set it up when the script starts.\<close>

definition ex_world :: world where
  "ex_world = define_module (mrb_vm_const_set ''mpctx'' (MrbCptr ex_ctx)
     \<lparr>mrb = new_state, sink = [], resources = [Ctx_alloc, Mrb_open]\<rparr>)"

text \<open>
  A player with four script files: two raise and do not rescue (the message of the
  second holds a NUL byte), one reads a property that does not exist and ends, one ends
  at once.
\<close>

definition ex_host :: host where
  "ex_host = \<lparr>mp_client_get_core = (\<lambda>c. 7), mpv_client_name = (\<lambda>c. ''test''),
     mp_client_get_log = (\<lambda>c. 3), mp_get_user_path = (\<lambda>g f. f),
     fopen = (\<lambda>path.
        if path = ''fault.mrb'' then Some (Throw (Exception ''boom (RuntimeError)'' [''fault.mrb:1'']))
        else if path = ''prop.mrb''
          then Some (Call ''M'' ''get_property'' [MrbString ''nonexistent.property''] (\<lambda>r. Finish))
        else if path = ''nul.mrb'' then Some (Throw (Exception [CHR ''a'', CHR 0x00, CHR ''b''] []))
        else if path = ''test.mrb'' then Some Finish
        else None),
     mpv_get_property = (\<lambda>c nm. if nm = ''pause'' then (0, NodeFlag 0) else (- 8, NodeOther 0)),
     mpv_error_string = (\<lambda>err. if err = - 8 then ''property not found'' else ''unspecified error''),
     mp_get_property_list = [''pause'']\<rparr>"

definition ex_start :: world where
  "ex_start = \<lparr>mrb = new_state, sink = [], resources = []\<rparr>"

section \<open>Properties\<close>

subsection \<open>Auxiliary facts\<close>

lemma get_ctx_Return_iff:
  "get_ctx m w = Return ctx w' \<longleftrightarrow> w' = w \<and> map_of (vm_consts (mrb w)) ''mpctx'' = Some (MrbCptr ctx)"
  by (auto simp: get_ctx_def mrb_intern_cstr_def mrb_vm_const_get_def mrb_cptr_def seq_def
           split: option.splits mrb_value.splits)

lemma arena_gc_protect [simp]: "arena (mrb (gc_protect t w)) = arena (mrb w) @ [t]"
  by (simp add: gc_protect_def)

lemma arena_MP_ERR [simp]: "arena (mrb (MP_ERR ctx text w)) = arena (mrb w)"
  by (simp add: MP_ERR_def)

lemma arena_restore [simp]: "arena (mrb (mrb_gc_arena_restore ai w)) = take ai (arena (mrb w))"
  by (simp add: mrb_gc_arena_restore_def)

lemma arena_conversion:
  "mpv_to_mrb_root m node root w = Return v w' \<Longrightarrow>
     arena (mrb w') = arena (mrb w) @ (if root then take 1 (registered m node) else registered m node)"
  "array_loop m vs ary w = Return ary' w' \<Longrightarrow>
     arena (mrb w') = arena (mrb w) @ concat (map (registered m) vs)"
  "map_loop m kvs hash w = Return hash' w' \<Longrightarrow>
     arena (mrb w') = arena (mrb w) @ concat (map (\<lambda>kv. MRB_TT_STRING # registered m (snd kv)) kvs)"
proof (induction m node root w and m vs ary w and m kvs hash w
       arbitrary: v w' and ary' w' and hash' w'
       rule: mpv_to_mrb_root_array_loop_map_loop.induct)
  case (1 m s root w)
  then show ?case by (auto simp: mrb_str_new_cstr_def)
next
  case (2 m flag root w)
  then show ?case by auto
next
  case (3 m i root w)
  then show ?case by auto
next
  case (4 m d root w)
  then show ?case by (auto simp: mrb_float_value_def)
next
  case (5 m vs root w)
  let ?w1 = "gc_protect MRB_TT_ARRAY w"
  from "5.prems" obtain ary' w2 where
    loop: "array_loop m vs [] ?w1 = Return ary' w2" and
    w': "w' = (if root then mrb_gc_arena_restore (mrb_gc_arena_save ?w1) w2 else w2)"
    by (simp add: mrb_ary_new_def Let_def split: outcome.splits)
  have "arena (mrb w2) = arena (mrb ?w1) @ concat (map (registered m) vs)"
    by (rule "5.IH" [OF _ _ loop]) (simp_all add: mrb_ary_new_def)
  then show ?case
    by (simp add: w' mrb_gc_arena_save_def)
next
  case (6 m kvs root w)
  let ?w1 = "gc_protect MRB_TT_HASH w"
  from "6.prems" obtain hash' w2 where
    loop: "map_loop m kvs [] ?w1 = Return hash' w2" and
    w': "w' = (if root then mrb_gc_arena_restore (mrb_gc_arena_save ?w1) w2 else w2)"
    by (simp add: mrb_hash_new_def Let_def split: outcome.splits)
  have "arena (mrb w2) = arena (mrb ?w1) @ concat (map (\<lambda>kv. MRB_TT_STRING # registered m (snd kv)) kvs)"
    by (rule "6.IH" [OF _ _ loop]) (simp_all add: mrb_hash_new_def)
  then show ?case
    by (simp add: w' mrb_gc_arena_save_def)
next
  case (7 m f root w)
  then show ?case by (auto simp: get_ctx_Return_iff split: outcome.splits)
next
  case (8 m ary w)
  then show ?case by simp
next
  case (9 m v vs ary w)
  from "9.prems" obtain item w1 where
    item: "mpv_to_mrb_root m v False w = Return item w1" and
    loop: "array_loop m vs (mrb_ary_push ary item) w1 = Return ary' w'"
    by (simp split: outcome.splits)
  have "arena (mrb w1) = arena (mrb w) @ registered m v"
    using "9.IH"(1) [OF item] by simp
  moreover have "arena (mrb w') = arena (mrb w1) @ concat (map (registered m) vs)"
    by (rule "9.IH"(2) [OF item loop])
  ultimately show ?case by simp
next
  case (10 m hash w)
  then show ?case by simp
next
  case (11 m k v kvs hash w)
  let ?w1 = "gc_protect MRB_TT_STRING w"
  from "11.prems" obtain val w2 where
    val: "mpv_to_mrb_root m v False ?w1 = Return val w2" and
    loop: "map_loop m kvs (mrb_hash_set hash (MrbString k) val) w2 = Return hash' w'"
    by (simp add: mrb_str_new_cstr_def split: outcome.splits)
  have key: "(MrbString k, ?w1) = mrb_str_new_cstr k w"
    by (simp add: mrb_str_new_cstr_def)
  have "arena (mrb w2) = arena (mrb ?w1) @ registered m v"
    using "11.IH"(1) [OF key val] by simp
  moreover have "arena (mrb w') = arena (mrb w2) @ concat (map (\<lambda>kv. MRB_TT_STRING # registered m (snd kv)) kvs)"
    by (rule "11.IH"(2) [OF key val loop])
  ultimately show ?case by simp
qed


lemma same_setup_refl [simp]: "same_setup w w"
  by (simp add: same_setup_def)

lemma same_setup_trans: "same_setup w w1 \<Longrightarrow> same_setup w1 w2 \<Longrightarrow> same_setup w w2"
  by (simp add: same_setup_def)

lemma same_setup_gc_protect [simp]: "same_setup w (gc_protect t w1) = same_setup w w1"
  by (simp add: same_setup_def gc_protect_def)

lemma same_setup_gc_protect' [simp]: "same_setup (gc_protect t w) w1 = same_setup w w1"
  by (simp add: same_setup_def gc_protect_def)

lemma same_setup_restore [simp]: "same_setup w (mrb_gc_arena_restore ai w1) = same_setup w w1"
  by (simp add: same_setup_def mrb_gc_arena_restore_def)

lemma same_setup_MP_ERR [simp]: "same_setup w (MP_ERR ctx text w1) = same_setup w w1"
  by (simp add: same_setup_def MP_ERR_def)

lemma conversion_returns:
  "map_of (vm_consts (mrb w)) ''mpctx'' = Some (MrbCptr ctx) \<Longrightarrow>
     \<exists>v w'. mpv_to_mrb_root m node root w = Return v w' \<and> same_setup w w'"
  "map_of (vm_consts (mrb w)) ''mpctx'' = Some (MrbCptr ctx) \<Longrightarrow>
     \<exists>ary' w'. array_loop m vs ary w = Return ary' w' \<and> same_setup w w'"
  "map_of (vm_consts (mrb w)) ''mpctx'' = Some (MrbCptr ctx) \<Longrightarrow>
     \<exists>hash' w'. map_loop m kvs hash w = Return hash' w' \<and> same_setup w w'"
proof (induction m node root w and m vs ary w and m kvs hash w
       rule: mpv_to_mrb_root_array_loop_map_loop.induct)
  case (1 m s root w)
  then show ?case by (simp add: mrb_str_new_cstr_def)
next
  case (2 m flag root w)
  then show ?case by simp
next
  case (3 m i root w)
  then show ?case by simp
next
  case (4 m d root w)
  then show ?case by (simp add: mrb_float_value_def)
next
  case (5 m vs root w)
  let ?w1 = "gc_protect MRB_TT_ARRAY w"
  have "map_of (vm_consts (mrb ?w1)) ''mpctx'' = Some (MrbCptr ctx)"
    using "5.prems" by (simp add: gc_protect_def)
  with "5.IH" [of "[]" ?w1] obtain ary' w2 where
    "array_loop m vs [] ?w1 = Return ary' w2" "same_setup ?w1 w2"
    by (auto simp: mrb_ary_new_def)
  then show ?case
    by (simp add: mrb_ary_new_def Let_def)
next
  case (6 m kvs root w)
  let ?w1 = "gc_protect MRB_TT_HASH w"
  have "map_of (vm_consts (mrb ?w1)) ''mpctx'' = Some (MrbCptr ctx)"
    using "6.prems" by (simp add: gc_protect_def)
  with "6.IH" [of "[]" ?w1] obtain hash' w2 where
    "map_loop m kvs [] ?w1 = Return hash' w2" "same_setup ?w1 w2"
    by (auto simp: mrb_hash_new_def)
  then show ?case
    by (simp add: mrb_hash_new_def Let_def)
next
  case (7 m f root w)
  then have "get_ctx m w = Return ctx w"
    by (simp add: get_ctx_Return_iff)
  then show ?case by simp
next
  case (8 m ary w)
  then show ?case by simp
next
  case (9 m v vs ary w)
  from "9.IH"(1) "9.prems" obtain item w1 where
    item: "mpv_to_mrb_root m v False w = Return item w1" and s1: "same_setup w w1"
    by blast
  have "map_of (vm_consts (mrb w1)) ''mpctx'' = Some (MrbCptr ctx)"
    using s1 "9.prems" by (simp add: same_setup_def)
  with "9.IH"(2) [OF item] obtain ary' w' where
    "array_loop m vs (mrb_ary_push ary item) w1 = Return ary' w'" "same_setup w1 w'"
    by blast
  with item s1 show ?case
    by (auto intro: same_setup_trans)
next
  case (10 m hash w)
  then show ?case by simp
next
  case (11 m k v kvs hash w)
  let ?w1 = "gc_protect MRB_TT_STRING w"
  have key: "(MrbString k, ?w1) = mrb_str_new_cstr k w"
    by (simp add: mrb_str_new_cstr_def)
  have b1: "map_of (vm_consts (mrb ?w1)) ''mpctx'' = Some (MrbCptr ctx)"
    using "11.prems" by (simp add: gc_protect_def)
  from "11.IH"(1) [OF key b1] obtain val w2 where
    val: "mpv_to_mrb_root m v False ?w1 = Return val w2" and s2: "same_setup ?w1 w2"
    by blast
  have "map_of (vm_consts (mrb w2)) ''mpctx'' = Some (MrbCptr ctx)"
    using s2 b1 by (simp add: same_setup_def)
  with "11.IH"(2) [OF key val] obtain hash' w' where
    "map_loop m kvs (mrb_hash_set hash (MrbString k) val) w2 = Return hash' w'" "same_setup w2 w'"
    by blast
  with val s2 show ?case
    using same_setup_trans [of w w2 w'] by (simp add: mrb_str_new_cstr_def)
qed

lemma sink_gc_protect [simp]: "sink (gc_protect t w) = sink w"
  by (simp add: gc_protect_def)

lemma sink_restore [simp]: "sink (mrb_gc_arena_restore ai w) = sink w"
  by (simp add: mrb_gc_arena_restore_def)

lemma conversion_mirror:
  "unsupported_free node \<Longrightarrow> fits_fixnum m node \<Longrightarrow>
     \<exists>w'. mpv_to_mrb_root m node root w = Return (mirror node) w' \<and> sink w' = sink w"
  "list_all unsupported_free vs \<Longrightarrow> list_all (fits_fixnum m) vs \<Longrightarrow>
     \<exists>w'. array_loop m vs ary w = Return (ary @ map mirror vs) w' \<and> sink w' = sink w"
  "list_all (\<lambda>kv. unsupported_free (snd kv)) kvs \<Longrightarrow> list_all (\<lambda>kv. fits_fixnum m (snd kv)) kvs \<Longrightarrow>
     \<exists>w'. map_loop m kvs hash w =
            Return (foldl (\<lambda>hash kv. mrb_hash_set hash (MrbString (fst kv)) (mirror (snd kv))) hash kvs) w'
          \<and> sink w' = sink w"
proof (induction m node root w and m vs ary w and m kvs hash w
       rule: mpv_to_mrb_root_array_loop_map_loop.induct)
  case (1 m s root w)
  then show ?case by (simp add: mrb_str_new_cstr_def)
next
  case (2 m flag root w)
  then show ?case by (simp add: mrb_bool_value_def)
next
  case (3 m i root w)
  from "3.prems"(2) have "signed_take_bit (fixnum_bit m - 1) (sint i) = sint i"
    by (simp add: signed_take_bit_int_eq_self)
  then show ?case by (simp add: mrb_fixnum_value_def)
next
  case (4 m d root w)
  then show ?case by (simp add: mrb_float_value_def)
next
  case (5 m vs root w)
  let ?w1 = "gc_protect MRB_TT_ARRAY w"
  from "5.prems" have "list_all unsupported_free vs" "list_all (fits_fixnum m) vs"
    by simp_all
  with "5.IH" [of "[]" ?w1] obtain w2 where
    "array_loop m vs [] ?w1 = Return ([] @ map mirror vs) w2" "sink w2 = sink ?w1"
    by (auto simp: mrb_ary_new_def)
  then show ?case
    by (simp add: mrb_ary_new_def Let_def)
next
  case (6 m kvs root w)
  let ?w1 = "gc_protect MRB_TT_HASH w"
  from "6.prems" have "list_all (\<lambda>kv. unsupported_free (snd kv)) kvs"
    "list_all (\<lambda>kv. fits_fixnum m (snd kv)) kvs"
    by simp_all
  with "6.IH" [of "[]" ?w1] obtain w2 where
    "map_loop m kvs [] ?w1 =
       Return (foldl (\<lambda>hash kv. mrb_hash_set hash (MrbString (fst kv)) (mirror (snd kv))) [] kvs) w2"
    "sink w2 = sink ?w1"
    by (auto simp: mrb_hash_new_def)
  then show ?case
    by (simp add: mrb_hash_new_def Let_def)
next
  case (7 m f root w)
  then show ?case by simp
next
  case (8 m ary w)
  then show ?case by simp
next
  case (9 m v vs ary w)
  from "9.prems" have v: "unsupported_free v" "fits_fixnum m v"
    and vs: "list_all unsupported_free vs" "list_all (fits_fixnum m) vs"
    by simp_all
  from "9.IH"(1) [OF v] obtain w1 where
    item: "mpv_to_mrb_root m v False w = Return (mirror v) w1" and s1: "sink w1 = sink w"
    by blast
  from "9.IH"(2) [OF item vs] obtain w' where
    "array_loop m vs (mrb_ary_push ary (mirror v)) w1
       = Return (mrb_ary_push ary (mirror v) @ map mirror vs) w'"
    "sink w' = sink w1"
    by blast
  with item s1 show ?case
    by (simp add: mrb_ary_push_def)
next
  case (10 m hash w)
  then show ?case by simp
next
  case (11 m k v kvs hash w)
  let ?w1 = "gc_protect MRB_TT_STRING w"
  have key: "(MrbString k, ?w1) = mrb_str_new_cstr k w"
    by (simp add: mrb_str_new_cstr_def)
  from "11.prems" have v: "unsupported_free v" "fits_fixnum m v"
    and kvs: "list_all (\<lambda>kv. unsupported_free (snd kv)) kvs"
      "list_all (\<lambda>kv. fits_fixnum m (snd kv)) kvs"
    by simp_all
  from "11.IH"(1) [OF key v] obtain w2 where
    val: "mpv_to_mrb_root m v False ?w1 = Return (mirror v) w2" and s2: "sink w2 = sink ?w1"
    by blast
  from "11.IH"(2) [OF key val kvs] obtain w' where
    "map_loop m kvs (mrb_hash_set hash (MrbString k) (mirror v)) w2 =
       Return (foldl (\<lambda>hash kv. mrb_hash_set hash (MrbString (fst kv)) (mirror (snd kv)))
                 (mrb_hash_set hash (MrbString k) (mirror v)) kvs) w'"
    "sink w' = sink w2"
    by blast
  with val s2 show ?case
    by (simp add: mrb_str_new_cstr_def)
qed

text \<open>
  On a build whose Fixnum holds 64 bits every integer fits; what \<open>mirror\<close> is on a map
  without repeated keys.
\<close>

lemma fits_fixnum_64:
  assumes "64 \<le> fixnum_bit m"
  shows "fits_fixnum m node"
proof (induction node)
  case (NodeInt64 i)
  have "(2::int) ^ 63 \<le> 2 ^ (fixnum_bit m - 1)"
    using assms by (intro power_increasing) simp_all
  moreover have "- (2 ^ 63) \<le> sint i" "sint i < 2 ^ 63"
    using sint_ge [of i] sint_lt [of i] by simp_all
  ultimately show ?case by simp
next
  case (NodeArray vs)
  then show ?case by (simp add: list_all_iff)
next
  case (NodeMap kvs)
  then show ?case by (fastforce simp: list_all_iff snds.simps)
qed simp_all

lemma mrb_hash_set_fresh:
  "k \<notin> fst ` set hash \<Longrightarrow> mrb_hash_set hash k v = hash @ [(k, v)]"
  by (induction hash) auto

lemma insert_all_distinct:
  "distinct (map fst kvs) \<Longrightarrow> \<forall>kv \<in> set kvs. MrbString (fst kv) \<notin> fst ` set hash \<Longrightarrow>
     foldl (\<lambda>hash kv. mrb_hash_set hash (MrbString (fst kv)) (f (snd kv))) hash kvs
       = hash @ map (\<lambda>kv. (MrbString (fst kv), f (snd kv))) kvs"
proof (induction kvs arbitrary: hash)
  case Nil
  then show ?case by simp
next
  case (Cons kv kvs)
  have fresh: "MrbString (fst kv) \<notin> fst ` set hash"
    using Cons.prems(2) by simp
  have "\<forall>kv' \<in> set kvs. MrbString (fst kv') \<notin> fst ` set (hash @ [(MrbString (fst kv), f (snd kv))])"
    using Cons.prems by (auto simp: image_iff)
  with Cons.IH [of "hash @ [(MrbString (fst kv), f (snd kv))]"] Cons.prems(1) fresh
  show ?case by (simp add: mrb_hash_set_fresh)
qed

lemma mirror_map_distinct:
  "distinct (map fst kvs) \<Longrightarrow>
     mirror (NodeMap kvs) = MrbHash (map (\<lambda>kv. (MrbString (fst kv), mirror (snd kv))) kvs)"
  using insert_all_distinct [of kvs "[]" mirror] by simp

lemma arena_ex_world [simp]: "arena (mrb ex_world) = []"
  by (simp add: ex_world_def define_module_def mrb_define_module_function_def
        mrb_vm_const_set_def new_state_def Let_def)

lemma sink_ex_world [simp]: "sink ex_world = []"
  by (simp add: ex_world_def define_module_def mrb_define_module_function_def
        mrb_vm_const_set_def Let_def)

lemma get_ctx_ex_world: "get_ctx ex_mruby ex_world = Return ex_ctx ex_world"
  by (simp add: get_ctx_Return_iff ex_world_def define_module_def mrb_define_module_function_def
        mrb_vm_const_set_def Let_def)

lemma dec_int_examples: "dec_int 0 = ''0''" "dec_int 1 = ''1''" "dec_int 9 = ''9''"
  by code_simp+

lemma get_ctx_same_setup:
  "get_ctx m w = Return ctx w \<Longrightarrow> same_setup w w' \<Longrightarrow> get_ctx m w' = Return ctx w'"
  by (simp add: get_ctx_Return_iff same_setup_def)

text \<open>
  When the script starts, the constant \<open>mpctx\<close> holds the context \<open>load_mruby\<close> made; by
  \<open>get_ctx_same_setup\<close> and \<open>run_script_kept\<close> below it does so as long as the script runs.
\<close>

lemma get_ctx_after_setup:
  "get_ctx m (define_module (mrb_vm_const_set ''mpctx'' (MrbCptr ctx) w))
     = Return ctx (define_module (mrb_vm_const_set ''mpctx'' (MrbCptr ctx) w))"
  by (simp add: get_ctx_Return_iff define_module_def mrb_define_module_function_def
        mrb_vm_const_set_def Let_def)

text \<open>A String without a NUL byte is its own C string.\<close>

lemma c_str_no_nul: "CHR 0x00 \<notin> set bytes \<Longrightarrow> c_str bytes = bytes"
  by (auto simp: c_str_def)

lemma mrb_get_args_s_cases:
  "(\<exists>p. mrb_get_args_s m args w = Return p w) \<or> (\<exists>e. mrb_get_args_s m args w = Raise e w)"
  by (simp add: mrb_get_args_s_def split: list.splits mrb_value.splits)

lemma M_log_kept:
  assumes "get_ctx m w = Return ctx w"
  shows "kept w (M_log m args w)"
  using assms mrb_get_args_s_cases [of m args w]
  by (auto simp: M_log_def seq_def kept_def)

lemma property_list_loop_same_setup:
  "property_list_loop props mrb_props w = (mrb_props', w') \<Longrightarrow> same_setup w w'"
proof (induction props arbitrary: mrb_props w)
  case Nil
  then show ?case by simp
next
  case (Cons p props)
  from Cons.prems have
    "property_list_loop props (mrb_ary_push mrb_props (MrbString p)) (gc_protect MRB_TT_STRING w)
       = (mrb_props', w')"
    by (simp add: mrb_str_new_cstr_def)
  from Cons.IH [OF this] show ?case by simp
qed

lemma M_property_list_kept: "kept w (M_property_list h w)"
proof -
  obtain ps w2 where
    loop: "property_list_loop (mp_get_property_list h) [] (gc_protect MRB_TT_ARRAY w) = (ps, w2)"
    by (cases "property_list_loop (mp_get_property_list h) [] (gc_protect MRB_TT_ARRAY w)")
  from property_list_loop_same_setup [OF loop] have "same_setup w w2" by simp
  with loop show ?thesis
    by (simp add: M_property_list_def mrb_ary_new_def Let_def kept_def)
qed

lemma get_node_cases:
  assumes "get_ctx m w = Return ctx w"
  shows "(\<exists>e. get_node m h args w = Raise e w) \<or>
         (\<exists>ok node w'. get_node m h args w = Return (ok, node) w' \<and> same_setup w w')"
  using assms mrb_get_args_s_cases [of m args w]
  by (auto simp: get_node_def seq_def split: prod.splits if_splits)

lemma M_get_property_kept:
  assumes "get_ctx m w = Return ctx w"
  shows "kept w (M_get_property m h args w)"
proof -
  from get_node_cases [OF assms, of h args] consider
    (raise) e where "get_node m h args w = Raise e w"
  | (ret) ok node w1 where "get_node m h args w = Return (ok, node) w1" "same_setup w w1"
    by blast
  then show ?thesis
  proof cases
    case raise
    then show ?thesis by (simp add: M_get_property_def seq_def kept_def)
  next
    case ret
    from get_ctx_same_setup [OF assms ret(2)]
    have "map_of (vm_consts (mrb w1)) ''mpctx'' = Some (MrbCptr ctx)"
      by (simp add: get_ctx_Return_iff)
    from conversion_returns(1) [OF this, of m node True] obtain v w2 where
      "mpv_to_mrb_root m node True w1 = Return v w2" "same_setup w1 w2"
      by blast
    with ret show ?thesis
      using same_setup_trans [of w w1 w2]
      by (simp add: M_get_property_def seq_def kept_def mpv_to_mrb_def)
  qed
qed

lemma mrb_funcall_kept:
  assumes "get_ctx m w = Return ctx w"
  shows "kept w (mrb_funcall m h modl fn args w)"
proof (cases "map_of (module_functions (mrb w)) (modl, fn)")
  case None
  then show ?thesis by (simp add: mrb_funcall_def kept_def)
next
  case (Some f)
  then show ?thesis
    using M_log_kept [OF assms] M_property_list_kept M_get_property_kept [OF assms]
    by (cases f) (simp_all add: mrb_funcall_def call_cfunc_def)
qed

lemma run_script_kept:
  "get_ctx m w = Return ctx w \<Longrightarrow> kept w (run_script m h p w)"
proof (induction p arbitrary: w)
  case Finish
  then show ?case by (simp add: kept_def)
next
  case (Throw e)
  then show ?case by (simp add: kept_def)
next
  case (Call modl fn args k)
  from mrb_funcall_kept [OF Call.prems, of h modl fn args] show ?case
  proof (cases "mrb_funcall m h modl fn args w")
    case Undefined
    with \<open>kept w (mrb_funcall m h modl fn args w)\<close> show ?thesis
      by (simp add: kept_def)
  next
    case (Raise e w1)
    with \<open>kept w (mrb_funcall m h modl fn args w)\<close> have s1: "same_setup w w1"
      by (simp add: kept_def)
    from Call.IH [of "k (Inl e)" w1] get_ctx_same_setup [OF Call.prems s1]
    have "kept w1 (run_script m h (k (Inl e)) w1)" by (simp add: rangeI)
    with Raise s1 show ?thesis
      by (auto simp: kept_def split: outcome.splits intro: same_setup_trans)
  next
    case (Return v w1)
    with \<open>kept w (mrb_funcall m h modl fn args w)\<close> have s1: "same_setup w w1"
      by (simp add: kept_def)
    from Call.IH [of "k (Inr v)" w1] get_ctx_same_setup [OF Call.prems s1]
    have "kept w1 (run_script m h (k (Inr v)) w1)" by (simp add: rangeI)
    with Return s1 show ?thesis
      by (auto simp: kept_def split: outcome.splits intro: same_setup_trans)
  qed
qed

lemma backtrace_loop_frame_lines:
  "backtrace_loop bt i err = err @ frame_lines i (map c_str bt)"
  by (induction bt arbitrary: i err) simp_all

lemma sink_MP_ERR [simp]: "sink (MP_ERR ctx text w) = sink w @ [(log ctx, MSGL_ERR, text)]"
  by (simp add: MP_ERR_def)

lemma print_backtrace_fault:
  assumes "exc (mrb w) = Some e" and "get_ctx m w = Return ctx w"
  shows "\<exists>w'. print_backtrace m w = Return () w' \<and> same_setup w w' \<and>
           sink w' = sink w @ [(log ctx, MSGL_ERR,
             fault_message (c_str (mrb_inspect e)) (map c_str (mrb_exc_backtrace e)))]"
proof -
  let ?w1 = "mrb_gc_arena_restore (mrb_gc_arena_save (gc_protect MRB_TT_ARRAY w))
               (gc_protect MRB_TT_STRING (gc_protect MRB_TT_ARRAY w))"
  let ?err = "fault_message (c_str (mrb_inspect e)) (map c_str (mrb_exc_backtrace e))"
  have "same_setup w ?w1" by simp
  from get_ctx_same_setup [OF assms(2) this] have ctx: "get_ctx m ?w1 = Return ctx ?w1" .
  have "print_backtrace m w =
          seq (unprotected (get_ctx m ?w1)) (\<lambda>ctx w. Return () (MP_ERR ctx ?err w))"
    using assms(1)
    by (simp add: print_backtrace_def Let_def backtrace_loop_frame_lines fault_message_def)
  then have "print_backtrace m w = Return () (MP_ERR ctx ?err ?w1)"
    by (simp add: ctx unprotected_def seq_def)
  then show ?thesis by simp
qed

lemma print_backtrace_returns:
  assumes "get_ctx m w = Return ctx w"
  shows "\<exists>w'. print_backtrace m w = Return () w' \<and> same_setup w w'"
proof (cases "exc (mrb w)")
  case None
  then show ?thesis by (simp add: print_backtrace_def)
next
  case (Some e)
  from print_backtrace_fault [OF this assms] show ?thesis by blast
qed

lemma mrb_load_file_cxt_returns:
  assumes "get_ctx m w = Return ctx w"
  shows "\<exists>v w'. mrb_load_file_cxt m h prog w = Return v w' \<and> same_setup w w'"
proof (cases "run_script m h prog w")
  case Undefined
  with run_script_kept [OF assms, of h prog] show ?thesis by (simp add: kept_def)
next
  case (Raise e w1)
  with run_script_kept [OF assms, of h prog] show ?thesis
    by (simp add: kept_def mrb_load_file_cxt_def same_setup_def)
next
  case (Return v w1)
  with run_script_kept [OF assms, of h prog] show ?thesis
    by (simp add: kept_def mrb_load_file_cxt_def)
qed

lemma load_script_returns:
  assumes "get_ctx m w = Return ctx w"
    and "fopen h (mp_get_user_path h (mpctx ctx) fname) = Some prog"
  shows "\<exists>w'. load_script m h fname w = Return () w' \<and> same_setup w w'"
proof -
  from mrb_load_file_cxt_returns [OF assms(1), of h prog] obtain v w1 where
    run: "mrb_load_file_cxt m h prog w = Return v w1" and s1: "same_setup w w1"
    by blast
  from print_backtrace_returns [OF get_ctx_same_setup [OF assms(1) s1]] obtain w2 where
    "print_backtrace m w1 = Return () w2" "same_setup w1 w2"
    by blast
  with run s1 assms show ?thesis
    using same_setup_trans [of w w1 w2]
    by (simp add: load_script_def unprotected_def seq_def Let_def)
qed

lemma load_script_cases:
  assumes "get_ctx m w = Return ctx w"
  shows "load_script m h fname w = Undefined \<or>
         (\<exists>w'. load_script m h fname w = Return () w' \<and> same_setup w w')"
proof (cases "fopen h (mp_get_user_path h (mpctx ctx) fname)")
  case None
  with assms show ?thesis
    by (simp add: load_script_def unprotected_def seq_def Let_def)
next
  case (Some prog)
  from load_script_returns [OF assms this] show ?thesis by blast
qed

text \<open>The world and the context \<open>load_mruby\<close> has built when it reaches the guard.\<close>

lemma load_mruby_opened:
  assumes "mrb_open m = Some a"
  shows "load_mruby m h c fname w =
           seq (unprotected (load_script m h fname
                  (define_module (mrb_vm_const_set ''mpctx''
                     (MrbCptr \<lparr>state = Some a, name = mpv_client_name h c, filename = fname,
                         log = mp_client_get_log h c, client = c, mpctx = mp_client_get_core h c\<rparr>)
                     (w\<lparr>mrb := new_state, resources := resources w @ [Ctx_alloc, Mrb_open]\<rparr>)))))
               (\<lambda>_ w. err_out \<lparr>state = Some a, name = mpv_client_name h c, filename = fname,
                         log = mp_client_get_log h c, client = c, mpctx = mp_client_get_core h c\<rparr> 0 w)"
  using assms
  by (simp add: load_mruby_def Let_def seq_def deref_def mrb_intern_cstr_def cong: outcome.case_cong)

lemma load_mruby_null:
  assumes "mrb_open m = None"
  shows "load_mruby m h c fname w = Undefined"
  using assms by (simp add: load_mruby_def Let_def seq_def deref_def)

lemma load_mruby_cases:
  "load_mruby m h c fname w = Undefined \<or>
   (\<exists>w'. load_mruby m h c fname w = Return 0 w' \<and>
      resources w' = resources w @ [Ctx_alloc, Mrb_open, Mrb_close, Ctx_free])"
proof (cases "mrb_open m")
  case None
  then show ?thesis by (simp add: load_mruby_null)
next
  case (Some a)
  let ?ctx = "\<lparr>state = Some a, name = mpv_client_name h c, filename = fname,
                log = mp_client_get_log h c, client = c, mpctx = mp_client_get_core h c\<rparr>"
  let ?w4 = "define_module (mrb_vm_const_set ''mpctx'' (MrbCptr ?ctx)
               (w\<lparr>mrb := new_state, resources := resources w @ [Ctx_alloc, Mrb_open]\<rparr>))"
  have ctx: "get_ctx m ?w4 = Return ?ctx ?w4"
    by (simp add: get_ctx_Return_iff define_module_def mrb_define_module_function_def
          mrb_vm_const_set_def Let_def)
  have res: "resources ?w4 = resources w @ [Ctx_alloc, Mrb_open]"
    by (simp add: define_module_def mrb_define_module_function_def mrb_vm_const_set_def Let_def)
  from load_script_cases [OF ctx, of h fname] show ?thesis
  proof
    assume "load_script m h fname ?w4 = Undefined"
    then show ?thesis
      by (simp add: load_mruby_opened [OF Some] unprotected_def seq_def)
  next
    assume "\<exists>w'. load_script m h fname ?w4 = Return () w' \<and> same_setup ?w4 w'"
    then obtain w5 where "load_script m h fname ?w4 = Return () w5" "same_setup ?w4 w5"
      by blast
    with res show ?thesis
      by (simp add: load_mruby_opened [OF Some] unprotected_def seq_def err_out_def Let_def
            mrb_close_def talloc_free_ctx_def same_setup_def)
  qed
qed

lemma load_mruby_returns:
  assumes "mrb_open m = Some a"
    and "fopen h (mp_get_user_path h (mp_client_get_core h c) fname) = Some prog"
  shows "\<exists>w'. load_mruby m h c fname w = Return 0 w'"
proof -
  let ?ctx = "\<lparr>state = Some a, name = mpv_client_name h c, filename = fname,
                log = mp_client_get_log h c, client = c, mpctx = mp_client_get_core h c\<rparr>"
  let ?w4 = "define_module (mrb_vm_const_set ''mpctx'' (MrbCptr ?ctx)
               (w\<lparr>mrb := new_state, resources := resources w @ [Ctx_alloc, Mrb_open]\<rparr>))"
  have ctx: "get_ctx m ?w4 = Return ?ctx ?w4"
    by (simp add: get_ctx_Return_iff define_module_def mrb_define_module_function_def
          mrb_vm_const_set_def Let_def)
  have "fopen h (mp_get_user_path h (mpctx ?ctx) fname) = Some prog"
    using assms(2) by simp
  from load_script_returns [OF ctx this] obtain w5 where
    "load_script m h fname ?w4 = Return () w5"
    by blast
  then show ?thesis
    by (simp add: load_mruby_opened [OF assms(1)] unprotected_def seq_def err_out_def Let_def)
qed

subsection \<open>The claims\<close>

text \<open>
  C6. A flag node converts to the boolean that is true exactly when the flag, as a signed
  integer, is at least 0: 0 gives true, -1 gives false, 5 gives true.
\<close>

theorem flag_conversion:
  "mpv_to_mrb_root m (NodeFlag flag) root w = Return (MrbBool (0 \<le> sint flag)) w
   \<and> mpv_to_mrb_root m (NodeFlag 0) root w = Return (MrbBool True) w
   \<and> mpv_to_mrb_root m (NodeFlag (- 1)) root w = Return (MrbBool False) w
   \<and> mpv_to_mrb_root m (NodeFlag 5) root w = Return (MrbBool True) w"
  by (simp add: mrb_bool_value_def)

text \<open>
  C2, as the code has it. A root call on an array or a map restores the arena to the mark
  it took right after creating the container, so that of all the call registered only the
  container is still registered when it returns. A nested call does not restore the
  arena: all it and the calls below it registered is still registered when it returns.
\<close>

theorem arena_root_and_nested:
  assumes "mpv_to_mrb_root m node root w = Return v w'"
  shows "arena (mrb w') =
           arena (mrb w) @ (if root then take 1 (registered m node) else registered m node)"
  using assms by (rule arena_conversion(1))

theorem arena_root_and_nested_witness:
  "mpv_to_mrb_root ex_mruby (NodeArray [NodeString ''a'']) False ex_world
     = Return (MrbArray [MrbString ''a''])
         (gc_protect MRB_TT_STRING (gc_protect MRB_TT_ARRAY ex_world))
   \<and> arena (mrb (gc_protect MRB_TT_STRING (gc_protect MRB_TT_ARRAY ex_world)))
     = arena (mrb ex_world) @ [MRB_TT_ARRAY, MRB_TT_STRING]"
proof -
  have h: "mpv_to_mrb_root ex_mruby (NodeArray [NodeString ''a'']) False ex_world
     = Return (MrbArray [MrbString ''a''])
         (gc_protect MRB_TT_STRING (gc_protect MRB_TT_ARRAY ex_world))"
    by (simp add: mrb_ary_new_def mrb_str_new_cstr_def mrb_ary_push_def Let_def)
  from arena_root_and_nested [OF h] show ?thesis
    using h by simp
qed

text \<open>
  C2 as stated fails: the nested call on an array of one string returns with the string
  still registered above its mark, and the root call returns with the arena restored.
\<close>

theorem nested_releases_root_keeps_counterexample:
  "arena_after (mpv_to_mrb_root ex_mruby (NodeArray [NodeString ''a'']) False ex_world)
     = Some [MRB_TT_ARRAY, MRB_TT_STRING]
   \<and> arena_after (mpv_to_mrb_root ex_mruby (NodeArray [NodeString ''a'']) True ex_world)
     = Some [MRB_TT_ARRAY]"
  by (simp add: arena_after_def final_def mrb_ary_new_def mrb_str_new_cstr_def mrb_ary_push_def
        mrb_gc_arena_save_def Let_def)

text \<open>
  C5. A node whose format is none of the six the switch lists converts to nil, adds
  exactly one message to the sink of the script context, which names the format, and
  raises nothing.
\<close>

theorem unsupported_format:
  assumes "format node \<notin> recognized" and "get_ctx m w = Return ctx w"
  shows "mpv_to_mrb_root m node root w =
           Return MrbNil
             (w\<lparr>sink := sink w @
                [(log ctx, MSGL_ERR,
                  ''mpv_node mapping failed (format: '' @ dec_int (format node) @ '').'' @ [CHR 0x0A])]\<rparr>)"
proof (cases node)
  case (NodeOther f)
  with assms(2) show ?thesis
    by (simp add: MP_ERR_def mrb_nil_value_def)
qed (use assms(1) in \<open>simp_all add: recognized_def\<close>)

theorem unsupported_format_witness:
  "format (NodeOther 9) \<notin> recognized
   \<and> get_ctx ex_mruby ex_world = Return ex_ctx ex_world
   \<and> mpv_to_mrb_root ex_mruby (NodeOther 9) True ex_world =
       Return MrbNil
         (ex_world\<lparr>sink := [(3, MSGL_ERR, ''mpv_node mapping failed (format: 9).'' @ [CHR 0x0A])]\<rparr>)"
proof -
  have f: "format (NodeOther 9) \<notin> recognized"
    by (simp add: recognized_def MPV_FORMAT_STRING_def MPV_FORMAT_FLAG_def MPV_FORMAT_INT64_def
          MPV_FORMAT_DOUBLE_def MPV_FORMAT_NODE_ARRAY_def MPV_FORMAT_NODE_MAP_def)
  from unsupported_format [OF f get_ctx_ex_world, of True] show ?thesis
    using f get_ctx_ex_world by (simp add: dec_int_examples ex_ctx_def)
qed

text \<open>
  C8, as the code has it. A node without a node of unlisted format, all of whose
  integers lie in the range of a Fixnum of the build, converts to the value that mirrors
  it, at any depth: scalars to the native scalar of the same value, an array to the
  converted elements in order, a map to the hash made by inserting the converted pairs
  in the order of the source. Nothing is written to the sink.
\<close>

theorem conversion_mirrors:
  assumes "unsupported_free node" and "fits_fixnum m node"
  shows "\<exists>w'. mpv_to_mrb_root m node root w = Return (mirror node) w' \<and> sink w' = sink w"
  using assms by (rule conversion_mirror(1))

theorem conversion_mirrors_witness:
  "unsupported_free (NodeArray [NodeString ''a'', NodeMap [(''k'', NodeInt64 (- 3)), (''f'', NodeFlag 5)]])
   \<and> fits_fixnum ex_mruby
        (NodeArray [NodeString ''a'', NodeMap [(''k'', NodeInt64 (- 3)), (''f'', NodeFlag 5)]])
   \<and> returned (mpv_to_mrb_root ex_mruby
        (NodeArray [NodeString ''a'', NodeMap [(''k'', NodeInt64 (- 3)), (''f'', NodeFlag 5)]]) True ex_world)
     = Some (MrbArray [MrbString ''a'',
               MrbHash [(MrbString ''k'', MrbFixnum (- 3)), (MrbString ''f'', MrbBool True)]])"
proof -
  let ?node = "NodeArray [NodeString ''a'', NodeMap [(''k'', NodeInt64 (- 3)), (''f'', NodeFlag 5)]]"
  have h: "unsupported_free ?node" by simp
  have f: "fits_fixnum ex_mruby ?node" by (simp add: ex_mruby_def)
  from conversion_mirrors [OF h f, of True ex_world] obtain w' where
    "mpv_to_mrb_root ex_mruby ?node True ex_world = Return (mirror ?node) w'"
    by blast
  moreover have "mirror ?node =
      MrbArray [MrbString ''a'', MrbHash [(MrbString ''k'', MrbFixnum (- 3)), (MrbString ''f'', MrbBool True)]]"
    by simp
  ultimately show ?thesis
    using h f by (simp add: returned_def)
qed

text \<open>
  C8 as stated fails on a build whose Fixnum holds 32 bits: the integer 2^63 - 1 has no
  unlisted format inside, and converts to the Fixnum -1, not to the integer of its value.
\<close>

theorem integer_mirror_counterexample:
  "unsupported_free (NodeInt64 9223372036854775807)
   \<and> returned (mpv_to_mrb_root ex_mruby (NodeInt64 9223372036854775807) True ex_world)
       = Some (MrbFixnum (- 1))
   \<and> mirror (NodeInt64 9223372036854775807) = MrbFixnum 9223372036854775807"
proof (intro conjI)
  show "unsupported_free (NodeInt64 9223372036854775807)" by simp
  show "returned (mpv_to_mrb_root ex_mruby (NodeInt64 9223372036854775807) True ex_world)
       = Some (MrbFixnum (- 1))"
    by code_simp
  show "mirror (NodeInt64 9223372036854775807) = MrbFixnum 9223372036854775807"
    by simp
qed

text \<open>
  C1, as the code has it. When the interpreter and the script file are opened,
  \<open>load_mruby\<close> returns 0, whether the script ran to its end or raised an exception it
  did not rescue; such a fault is reported to the sink only.
\<close>

theorem load_returns_0:
  assumes "mrb_open m = Some a"
    and "fopen h (mp_get_user_path h (mp_client_get_core h c) fname) = Some prog"
  shows "returned (load_mruby m h c fname w) = Some 0"
proof -
  from load_mruby_returns [OF assms] obtain w' where
    "load_mruby m h c fname w = Return 0 w'"
    by blast
  then show ?thesis by (simp add: returned_def)
qed

theorem load_returns_0_witness:
  "mrb_open ex_mruby = Some 1
   \<and> fopen ex_host (mp_get_user_path ex_host (mp_client_get_core ex_host 2) ''fault.mrb'')
       = Some (Throw (Exception ''boom (RuntimeError)'' [''fault.mrb:1'']))
   \<and> returned (load_mruby ex_mruby ex_host 2 ''fault.mrb'' ex_start) = Some 0"
proof -
  have a: "mrb_open ex_mruby = Some 1"
    by (simp add: ex_mruby_def)
  have b: "fopen ex_host (mp_get_user_path ex_host (mp_client_get_core ex_host 2) ''fault.mrb'')
       = Some (Throw (Exception ''boom (RuntimeError)'' [''fault.mrb:1'']))"
    by (simp add: ex_host_def)
  from load_returns_0 [OF a b] show ?thesis
    using a b by simp
qed

text \<open>
  C1 as stated fails: the script of \<open>fault.mrb\<close> raises an exception it does not rescue,
  and the load returns 0, not a negative code.
\<close>

theorem load_fault_counterexample:
  "fopen ex_host ''fault.mrb'' = Some (Throw (Exception ''boom (RuntimeError)'' [''fault.mrb:1'']))
   \<and> returned (load_mruby ex_mruby ex_host 2 ''fault.mrb'' ex_start) = Some 0"
proof
  show "fopen ex_host ''fault.mrb'' = Some (Throw (Exception ''boom (RuntimeError)'' [''fault.mrb:1'']))"
    by (simp add: ex_host_def)
  show "returned (load_mruby ex_mruby ex_host 2 ''fault.mrb'' ex_start) = Some 0"
    by code_simp
qed

text \<open>
  C3. The pointer \<open>mrb_open\<close> returned is dereferenced before the guard: with a NULL
  pointer the call is undefined. So the branch of the guard that leaves with -1 is never
  taken, and a call that returns returns 0.
\<close>

theorem null_guard_unreachable:
  "load_mruby (m\<lparr>mrb_open := None\<rparr>) h c fname w = Undefined
   \<and> (load_mruby m h c fname w = Undefined \<or> returned (load_mruby m h c fname w) = Some 0)
   \<and> returned (load_mruby m h c fname w) \<noteq> Some (- 1)"
proof -
  have "load_mruby (m\<lparr>mrb_open := None\<rparr>) h c fname w = Undefined"
    by (rule load_mruby_null) simp
  moreover from load_mruby_cases [of m h c fname w]
  have "load_mruby m h c fname w = Undefined \<or> returned (load_mruby m h c fname w) = Some 0"
    by (auto simp: returned_def)
  ultimately show ?thesis
    by (auto simp: returned_def)
qed

text \<open>
  C9. Whenever \<open>load_mruby\<close> returns, whatever the script did, what happened to its two
  resources is: the context was allocated, the interpreter opened, the interpreter
  closed, the context freed, in this order and nothing else.
\<close>

theorem close_before_free:
  assumes "final (load_mruby m h c fname w) = Some w'"
  shows "resources w' = resources w @ [Ctx_alloc, Mrb_open, Mrb_close, Ctx_free]"
  using assms load_mruby_cases [of m h c fname w]
  by (auto simp: final_def)

theorem close_before_free_witness:
  "final (load_mruby ex_mruby ex_host 2 ''fault.mrb'' ex_start) \<noteq> None
   \<and> map_option resources (final (load_mruby ex_mruby ex_host 2 ''fault.mrb'' ex_start))
     = Some [Ctx_alloc, Mrb_open, Mrb_close, Ctx_free]"
proof -
  have "final (load_mruby ex_mruby ex_host 2 ''fault.mrb'' ex_start) \<noteq> None"
    by code_simp
  then obtain w' where h: "final (load_mruby ex_mruby ex_host 2 ''fault.mrb'' ex_start) = Some w'"
    by blast
  from close_before_free [OF h] show ?thesis
    using h by (simp add: ex_start_def)
qed

text \<open>
  C7, as the code has it. When the script ends with an exception it did not rescue,
  \<open>load_script\<close> adds one message to the sink: the description, the line
  \<open>backtrace:\<close>, then for each frame, from 0 on and in order, a line with its index and
  its text; with no frame, the description and the line \<open>backtrace:\<close> only. The
  description and the frames are written as C strings, that is up to their first NUL
  byte.
\<close>

theorem fault_report:
  assumes "get_ctx m w = Return ctx w"
    and "fopen h (mp_get_user_path h (mpctx ctx) fname) = Some prog"
    and "run_script m h prog w = Raise e w1"
  shows "sink_after (load_script m h fname w) =
           Some (sink w1 @ [(log ctx, MSGL_ERR,
             fault_message (c_str (mrb_inspect e)) (map c_str (mrb_exc_backtrace e)))])
       \<and> fault_message (c_str (mrb_inspect e)) [] =
           c_str (mrb_inspect e) @ [CHR 0x0A] @ ''backtrace:'' @ [CHR 0x0A]"
proof -
  let ?w2 = "w1\<lparr>mrb := (mrb w1)\<lparr>exc := Some e\<rparr>\<rparr>"
  from run_script_kept [OF assms(1), of h prog] assms(3) have "same_setup w w1"
    by (simp add: kept_def)
  then have "same_setup w ?w2"
    by (simp add: same_setup_def)
  from get_ctx_same_setup [OF assms(1) this] have ctx: "get_ctx m ?w2 = Return ctx ?w2" .
  have "exc (mrb ?w2) = Some e" by simp
  from print_backtrace_fault [OF this ctx] obtain w' where
    "print_backtrace m ?w2 = Return () w'"
    "sink w' = sink ?w2 @ [(log ctx, MSGL_ERR,
       fault_message (c_str (mrb_inspect e)) (map c_str (mrb_exc_backtrace e)))]"
    by blast
  then have "sink_after (load_script m h fname w) =
           Some (sink w1 @ [(log ctx, MSGL_ERR,
             fault_message (c_str (mrb_inspect e)) (map c_str (mrb_exc_backtrace e)))])"
    using assms
    by (simp add: load_script_def unprotected_def seq_def Let_def mrb_load_file_cxt_def
          sink_after_def final_def)
  then show ?thesis
    by (simp add: fault_message_def)
qed

theorem fault_report_witness:
  "get_ctx ex_mruby ex_world = Return ex_ctx ex_world
   \<and> fopen ex_host (mp_get_user_path ex_host (mpctx ex_ctx) ''fault.mrb'')
       = Some (Throw (Exception ''boom (RuntimeError)'' [''fault.mrb:1'']))
   \<and> run_script ex_mruby ex_host (Throw (Exception ''boom (RuntimeError)'' [''fault.mrb:1''])) ex_world
       = Raise (Exception ''boom (RuntimeError)'' [''fault.mrb:1'']) ex_world
   \<and> sink_after (load_script ex_mruby ex_host ''fault.mrb'' ex_world) =
       Some [(3, MSGL_ERR,
              ''boom (RuntimeError)'' @ [CHR 0x0A] @ ''backtrace:'' @ [CHR 0x0A]
              @ [CHR 0x09] @ ''[0] => fault.mrb:1'' @ [CHR 0x0A])]"
proof -
  have b: "fopen ex_host (mp_get_user_path ex_host (mpctx ex_ctx) ''fault.mrb'')
       = Some (Throw (Exception ''boom (RuntimeError)'' [''fault.mrb:1'']))"
    by (simp add: ex_host_def)
  have c: "run_script ex_mruby ex_host (Throw (Exception ''boom (RuntimeError)'' [''fault.mrb:1''])) ex_world
       = Raise (Exception ''boom (RuntimeError)'' [''fault.mrb:1'']) ex_world"
    by simp
  from fault_report [OF get_ctx_ex_world b c] show ?thesis
    using b c get_ctx_ex_world
    by (simp add: fault_message_def c_str_def dec_int_examples ex_ctx_def)
qed

text \<open>
  C7 as stated fails: the description of the exception of \<open>nul.mrb\<close> is the three bytes
  a, NUL, b; the message holds its first byte only.
\<close>

theorem fault_description_counterexample:
  "fopen ex_host ''nul.mrb'' = Some (Throw (Exception [CHR ''a'', CHR 0x00, CHR ''b''] []))
   \<and> sink_after (load_script ex_mruby ex_host ''nul.mrb'' ex_world) =
       Some [(3, MSGL_ERR, ''a'' @ [CHR 0x0A] @ ''backtrace:'' @ [CHR 0x0A])]
   \<and> fault_message [CHR ''a'', CHR 0x00, CHR ''b''] [] \<noteq> ''a'' @ [CHR 0x0A] @ ''backtrace:'' @ [CHR 0x0A]"
proof (intro conjI)
  show "fopen ex_host ''nul.mrb'' = Some (Throw (Exception [CHR ''a'', CHR 0x00, CHR ''b''] []))"
    by (simp add: ex_host_def)
  show "sink_after (load_script ex_mruby ex_host ''nul.mrb'' ex_world) =
       Some [(3, MSGL_ERR, ''a'' @ [CHR 0x0A] @ ''backtrace:'' @ [CHR 0x0A])]"
    by code_simp
  show "fault_message [CHR ''a'', CHR 0x00, CHR ''b''] [] \<noteq> ''a'' @ [CHR 0x0A] @ ''backtrace:'' @ [CHR 0x0A]"
    by (simp add: fault_message_def)
qed

text \<open>
  C10, as the code has it. Called with a String, \<open>_log\<close> adds one message of severity
  error to the sink of the script context and returns nil. The text is the String read
  as a C string: all of it when it holds no NUL byte, else what comes before the first
  one. Nothing else is checked; the empty String gives a message with no text.
\<close>

theorem log_writes_c_string:
  assumes "get_ctx m w = Return ctx w"
  shows "M_log m [MrbString bytes] w =
           Return MrbNil (w\<lparr>sink := sink w @ [(log ctx, MSGL_ERR, c_str bytes)]\<rparr>)
       \<and> (CHR 0x00 \<notin> set bytes \<longrightarrow> c_str bytes = bytes)
       \<and> c_str [] = []"
  using assms
  by (auto simp: M_log_def seq_def mrb_get_args_s_def MP_ERR_def mrb_nil_value_def c_str_def)

theorem log_writes_c_string_witness:
  "get_ctx ex_mruby ex_world = Return ex_ctx ex_world
   \<and> CHR 0x00 \<notin> set ''hello''
   \<and> M_log ex_mruby [MrbString ''hello''] ex_world =
       Return MrbNil (ex_world\<lparr>sink := [(3, MSGL_ERR, ''hello'')]\<rparr>)
   \<and> M_log ex_mruby [MrbString []] ex_world =
       Return MrbNil (ex_world\<lparr>sink := [(3, MSGL_ERR, [])]\<rparr>)"
proof -
  have n: "CHR 0x00 \<notin> set ''hello''" by simp
  from log_writes_c_string [OF get_ctx_ex_world, of "''hello''"]
       log_writes_c_string [OF get_ctx_ex_world, of "[]"]
  show ?thesis
    using n get_ctx_ex_world by (simp add: ex_ctx_def)
qed

text \<open>
  C10 as stated fails: the message of three bytes a, NUL, b is not written as it is; the
  sink receives its first byte only.
\<close>

theorem log_verbatim_counterexample:
  "sink_after (M_log ex_mruby [MrbString [CHR ''a'', CHR 0x00, CHR ''b'']] ex_world)
     = Some [(3, MSGL_ERR, ''a'')]"
  by code_simp

text \<open>
  C4. When the player fails to look up the name the script passed (the String read as a
  C string), \<open>_get_property\<close> adds one message to the sink, which holds the name and the
  player's description of the error, returns nil and raises nothing. No load returns
  anything but 0, whatever lookups failed in it.
\<close>

theorem get_property_failure:
  assumes "get_ctx m w = Return ctx w"
    and "mpv_get_property h (client ctx) (c_str bytes) = (err, val)"
    and "err < 0"
  shows "M_get_property m h [MrbString bytes] w =
           Return MrbNil (w\<lparr>sink := sink w @
             [(log ctx, MSGL_ERR,
               ''get_property('' @ [CHR 0x22] @ c_str bytes @ [CHR 0x22] @ '') failed: ''
               @ mpv_error_string h err @ ''.'' @ [CHR 0x0A])]\<rparr>)
       \<and> (load_mruby m h c fname start = Undefined \<or> returned (load_mruby m h c fname start) = Some 0)"
proof -
  from load_mruby_cases [of m h c fname start]
  have "load_mruby m h c fname start = Undefined \<or> returned (load_mruby m h c fname start) = Some 0"
    by (auto simp: returned_def)
  with assms show ?thesis
    by (simp add: M_get_property_def get_node_def seq_def mrb_get_args_s_def MP_ERR_def
          mrb_nil_value_def)
qed

theorem get_property_failure_witness:
  "get_ctx ex_mruby ex_world = Return ex_ctx ex_world
   \<and> mpv_get_property ex_host (client ex_ctx) (c_str ''nonexistent.property'') = (- 8, NodeOther 0)
   \<and> (- 8 :: int) < 0
   \<and> M_get_property ex_mruby ex_host [MrbString ''nonexistent.property''] ex_world =
       Return MrbNil (ex_world\<lparr>sink :=
         [(3, MSGL_ERR,
           ''get_property('' @ [CHR 0x22] @ ''nonexistent.property'' @ [CHR 0x22]
           @ '') failed: property not found.'' @ [CHR 0x0A])]\<rparr>)
   \<and> returned (load_mruby ex_mruby ex_host 2 ''prop.mrb'' ex_start) = Some 0"
proof -
  have p: "mpv_get_property ex_host (client ex_ctx) (c_str ''nonexistent.property'') = (- 8, NodeOther 0)"
    by (simp add: ex_host_def c_str_def)
  have n: "(- 8 :: int) < 0" by simp
  have d: "load_mruby ex_mruby ex_host 2 ''prop.mrb'' ex_start \<noteq> Undefined"
    by code_simp
  from get_property_failure [OF get_ctx_ex_world p n, where c = 2 and fname = "''prop.mrb''"
      and start = ex_start]
  show ?thesis
    using p n d get_ctx_ex_world by (simp add: ex_host_def ex_ctx_def c_str_def)
qed

end
